theory Spec2Isabelle
  imports Complex_Main "HOL-Library.Sublist" "HOL-Library.Log_Nat"
begin

section \<open>The persistent vector store of the study assistant\<close>

text \<open>
  A shallow embedding of \<^verbatim>\<open>src/core/vectordb.py\<close> and of \<^verbatim>\<open>get_embedding\<close> in
  \<^verbatim>\<open>src/utils/helper.py\<close>. The functions of the source work on files and call two
  libraries and one remote service; here the files are fields of a record \<open>world\<close>
  that every operation takes and returns, every exception is a value of \<open>py_error\<close>,
  and what the libraries and the service compute is taken as a parameter (\<open>env\<close>).
  The vectors, and the distances that the search of the library returns, are real
  numbers here (every float is one, and how the library rounds is part of what the
  parameter computes). The two floating-point operations that the source itself
  performs, in the similarity score, are rounded as the format prescribes.
\<close>

subsection \<open>Data\<close>

datatype py_error = ValueError | AssertionError | IndexError | PickleError

type_synonym vector = "real list"

text \<open>A chunk is the dictionary that ingestion builds: \<open>index\<close> is absent until
  \<^verbatim>\<open>build_vector_store\<close> assigns it, \<open>similarity\<close> until \<^verbatim>\<open>retrieve\<close> does.\<close>

record chunk =
  "text" :: string
  source :: string
  page :: int
  headers :: "string list"
  index :: "nat option"
  similarity :: "real option"

text \<open>The flat L2 index of the library: its dimension \<open>d\<close> and the vectors added so
  far, in insertion order (the ordinal of a vector is its position).\<close>

record faiss_index =
  d :: nat
  xb :: "vector list"

definition ntotal :: "faiss_index \<Rightarrow> nat" where
  "ntotal ix = length (xb ix)"

definition IndexFlatL2 :: "nat \<Rightarrow> faiss_index" where
  "IndexFlatL2 n = \<lparr>d = n, xb = []\<rparr>"

text \<open>\<^verbatim>\<open>index.add(x)\<close> for a matrix \<open>x\<close> (a list of rows of one length): the library
  asserts that the width of \<open>x\<close> is the dimension of the index.\<close>

definition index_add :: "faiss_index \<Rightarrow> vector list \<Rightarrow> py_error + faiss_index" where
  "index_add ix x =
     (if \<exists>row \<in> set x. length row \<noteq> d ix then Inl AssertionError
      else Inr (ix\<lparr>xb := xb ix @ x\<rparr>))"

record file_entry =
  hash :: string
  chunk_indices :: "nat list"

text \<open>What \<^verbatim>\<open>pickle.load\<close> of the store file gives: the dictionary with the keys
  \<^verbatim>\<open>index\<close>, \<^verbatim>\<open>chunks\<close> and \<^verbatim>\<open>file_map\<close>, or an exception when the file cannot be
  read or parsed.\<close>

record store_data =
  store_index :: "faiss_index option"
  store_chunks :: "chunk list"
  file_map :: "string \<rightharpoonup> file_entry"

datatype store_artifact = StoreUnreadable | Stored store_data

record cache_data =
  embeddings :: "vector list"
  cached_chunks :: "chunk list"

datatype cache_artifact = CacheUnreadable | Cached cache_data

text \<open>The files the module reads and writes, and the calls made to the embedding
  service (the texts sent, oldest first).\<close>

record world =
  store_file :: "store_artifact option"
  cache_files :: "string \<rightharpoonup> cache_artifact"
  source_files :: "string \<rightharpoonup> string"
  dirs_made :: bool
  provider_log :: "string list"

subsection \<open>Floating-point rounding\<close>

text \<open>The formats in which numpy may compute the score from the 32-bit distance: the
  two binary formats of IEEE 754, with their precision (bits of the significand) and
  least normal exponent.\<close>

datatype float_format = Binary32 | Binary64

fun precision :: "float_format \<Rightarrow> nat" where
  "precision Binary32 = 24"
| "precision Binary64 = 53"

fun emin :: "float_format \<Rightarrow> int" where
  "emin Binary32 = - 126"
| "emin Binary64 = - 1022"

text \<open>The nearest integer, the even one of two that are equally near.\<close>

definition round_half_even :: "real \<Rightarrow> int" where
  "round_half_even x =
     (let f = \<lfloor>x\<rfloor>; r = x - of_int f
      in if r < 1 / 2 then f else if 1 / 2 < r then f + 1 else if even f then f else f + 1)"

text \<open>\<open>fl fm x\<close> is \<open>x\<close> rounded to the nearest number of the format \<open>fm\<close>, ties to
  even: the numbers of the format near \<open>x\<close> are the multiples of \<open>quantum fm x\<close>, which
  is \<open>2\<close> to the exponent of \<open>x\<close> (at least \<open>emin\<close>: below, the spacing stays that of
  the least normal numbers) less the precision, plus one. The exponent \<open>binade x\<close> is
  the \<open>k\<close> with \<open>2 powi k \<le> \<bar>x\<bar> < 2 powi (k + 1)\<close>, read off the number of bits of
  the integer part of \<open>\<bar>x\<bar>\<close> or of its inverse. There is no overflow here:
  the formats are taken without a largest number. The two operations of the score do
  not overflow for a distance that is a finite float and not negative.\<close>

definition binade :: "real \<Rightarrow> int" where
  "binade x =
     (if 1 \<le> \<bar>x\<bar> then bitlen \<lfloor>\<bar>x\<bar>\<rfloor> - 1 else - bitlen (\<lceil>1 / \<bar>x\<bar>\<rceil> - 1))"

definition quantum :: "float_format \<Rightarrow> real \<Rightarrow> real" where
  "quantum fm x = 2 powi (max (binade x) (emin fm) - (int (precision fm) - 1))"

definition fl :: "float_format \<Rightarrow> real \<Rightarrow> real" where
  "fl fm x = (if x = 0 then 0 else of_int (round_half_even (x / quantum fm x)) * quantum fm x)"

subsection \<open>The environment\<close>

text \<open>What the source takes from outside: whether \<^verbatim>\<open>API_KEY\<close> is set, the remote
  \<^verbatim>\<open>genai.embed_content\<close> (given the calls made before and the text; \<open>None\<close> when the
  call raises), \<^verbatim>\<open>hashlib.md5(...).hexdigest()\<close>, and the nearest-neighbour search of
  the library (the rows of the index, the query and \<open>k\<close>; pairs of label and distance,
  nearest first), and the format in which the installed numpy computes the score
  (binary32 where a Python integer takes the type of the float it meets, binary64
  where it is first made a 64-bit integer).\<close>

record env =
  api_key :: bool
  embed_content :: "string list \<Rightarrow> string \<Rightarrow> vector option"
  md5_hexdigest :: "string \<Rightarrow> string"
  knn :: "vector list \<Rightarrow> vector \<Rightarrow> nat \<Rightarrow> (int \<times> real) list"
  score_format :: float_format

definition pickle_load_store :: "store_artifact \<Rightarrow> py_error + store_data" where
  "pickle_load_store a = (case a of StoreUnreadable \<Rightarrow> Inl PickleError | Stored dt \<Rightarrow> Inr dt)"

definition pickle_load_cache :: "cache_artifact \<Rightarrow> py_error + cache_data" where
  "pickle_load_cache a = (case a of CacheUnreadable \<Rightarrow> Inl PickleError | Cached dt \<Rightarrow> Inr dt)"

subsection \<open>load\_vector\_store and clear\_vector\_store\<close>

text \<open>The result is the pair the source returns: \<open>(None, None)\<close> or the index and
  the chunks. Every exception inside the \<^verbatim>\<open>try\<close> falls through to the last line.\<close>

definition load_vector_store :: "world \<Rightarrow> faiss_index option \<times> chunk list option" where
  "load_vector_store w =
     (case store_file w of
        None \<Rightarrow> (None, None)
      | Some a \<Rightarrow>
          (case pickle_load_store a of
             Inl e \<Rightarrow> (None, None)
           | Inr dt \<Rightarrow>
               (case store_index dt of
                  None \<Rightarrow> (None, None)
                | Some ix \<Rightarrow>
                    if length (store_chunks dt) = ntotal ix
                    then (Some ix, Some (store_chunks dt))
                    else (None, None))))"

definition clear_vector_store :: "world \<Rightarrow> world \<times> bool" where
  "clear_vector_store w =
     (if store_file w \<noteq> None then (w\<lparr>store_file := None\<rparr>, True) else (w, False))"

subsection \<open>The similarity score\<close>

text \<open>Line 226, \<^verbatim>\<open>1 / (1 + distance)\<close>: an addition and a division of floats, each
  rounded.\<close>

definition similarity_of :: "float_format \<Rightarrow> real \<Rightarrow> real" where
  "similarity_of fm distance = fl fm (1 / fl fm (1 + distance))"


subsection \<open>Fingerprints and cache paths\<close>

definition EMBEDDING_CACHE_DIR :: string where
  "EMBEDDING_CACHE_DIR = ''data/vector_store/embeddings''"

text \<open>\<^verbatim>\<open>get_file_hash\<close>: the digest of the bytes, or the empty string when the file
  cannot be read.\<close>

definition get_file_hash :: "env \<Rightarrow> world \<Rightarrow> string \<Rightarrow> string" where
  "get_file_hash ev w file_path =
     (case source_files w file_path of
        None \<Rightarrow> []
      | Some content \<Rightarrow> md5_hexdigest ev content)"

definition basename :: "string \<Rightarrow> string" where
  "basename p = rev (takeWhile (\<lambda>c. c \<noteq> CHR ''/'') (rev p))"

text \<open>The first component of \<^verbatim>\<open>os.path.splitext\<close> on a name without separator: the
  name up to its last dot, unless only dots come before that dot.\<close>

definition splitext_root :: "string \<Rightarrow> string" where
  "splitext_root p =
     (if CHR ''.'' \<notin> set p then p
      else let root = rev (tl (dropWhile (\<lambda>c. c \<noteq> CHR ''.'') (rev p)))
           in if \<exists>c \<in> set root. c \<noteq> CHR ''.'' then root else p)"

definition get_embedding_path :: "env \<Rightarrow> world \<Rightarrow> string \<Rightarrow> string" where
  "get_embedding_path ev w file_path =
     (let file_hash = get_file_hash ev w file_path
      in if file_hash = [] then []
         else let base_name = splitext_root (basename file_path)
              in EMBEDDING_CACHE_DIR @ ''/'' @ base_name @ ''_'' @ file_hash @ ''.pkl'')"

subsection \<open>get\_embedding\<close>

text \<open>The loop of \<^verbatim>\<open>get_embedding\<close>: one call of the service per text, in order; a
  call that raises gives the zero vector of 768 entries. The first argument is the
  log of calls, returned extended.\<close>

fun embed_loop :: "env \<Rightarrow> string list \<Rightarrow> string list \<Rightarrow> string list \<times> vector list" where
  "embed_loop ev calls [] = (calls, [])"
| "embed_loop ev calls (t # ts) =
     (let e = (case embed_content ev calls t of
                 Some v \<Rightarrow> v
               | None \<Rightarrow> replicate 768 0);
          (calls', es) = embed_loop ev (calls @ [t]) ts
      in (calls', e # es))"

definition get_embedding ::
  "env \<Rightarrow> string list \<Rightarrow> string list \<Rightarrow> py_error + (string list \<times> vector list)" where
  "get_embedding ev calls texts =
     (if \<not> api_key ev then Inl ValueError else Inr (embed_loop ev calls texts))"

subsection \<open>build\_vector\_store\<close>

definition empty_store :: store_data where
  "empty_store = \<lparr>store_index = None, store_chunks = [], file_map = Map.empty\<rparr>"

text \<open>Lines 73 to 79: the stored dictionary, or the empty one when there is no file
  or it does not load.\<close>

definition load_existing :: "world \<Rightarrow> store_data" where
  "load_existing w =
     (case store_file w of
        None \<Rightarrow> empty_store
      | Some a \<Rightarrow> (case pickle_load_store a of Inl e \<Rightarrow> empty_store | Inr dt \<Rightarrow> dt))"

text \<open>\<^verbatim>\<open>if source_file:\<close> holds for a string that is not empty.\<close>

definition truthy :: "string option \<Rightarrow> bool" where
  "truthy source_file = (case source_file of None \<Rightarrow> False | Some sf \<Rightarrow> sf \<noteq> [])"

text \<open>Lines 81 to 92: the embeddings of the cache file of the source, or the empty
  list.\<close>

definition cached_embeddings :: "env \<Rightarrow> world \<Rightarrow> string option \<Rightarrow> vector list" where
  "cached_embeddings ev w source_file =
     (if truthy source_file then
        (let embedding_path = get_embedding_path ev w (the source_file)
         in if embedding_path \<noteq> [] then
              (case cache_files w embedding_path of
                 None \<Rightarrow> []
               | Some a \<Rightarrow>
                   (case pickle_load_cache a of Inl e \<Rightarrow> [] | Inr cd \<Rightarrow> embeddings cd))
            else [])
      else [])"

text \<open>Lines 96 to 108: the embeddings of the texts of the chunks (no entry of the
  list that \<^verbatim>\<open>get_embedding\<close> returns is \<^verbatim>\<open>None\<close>, so the filter of line 97 keeps all
  of them), written to the cache file when there is a source file with a hash. The
  exception of \<^verbatim>\<open>get_embedding\<close> is not caught here.\<close>

definition generate_embeddings ::
  "env \<Rightarrow> world \<Rightarrow> chunk list \<Rightarrow> string option \<Rightarrow> world \<times> (py_error + vector list)" where
  "generate_embeddings ev w chunks source_file =
     (case get_embedding ev (provider_log w) (map text chunks) of
        Inl e \<Rightarrow> (w, Inl e)
      | Inr (calls', new_embeddings) \<Rightarrow>
          (let w' = w\<lparr>provider_log := calls'\<rparr>
           in if truthy source_file \<and> new_embeddings \<noteq> [] then
                (let embedding_path = get_embedding_path ev w' (the source_file)
                 in if embedding_path \<noteq> [] then
                      (w'\<lparr>cache_files := (cache_files w')(embedding_path \<mapsto>
                            Cached \<lparr>embeddings = new_embeddings, cached_chunks = chunks\<rparr>)\<rparr>,
                       Inr new_embeddings)
                    else (w', Inr new_embeddings))
              else (w', Inr new_embeddings)))"

text \<open>\<^verbatim>\<open>np.array(rows, dtype=np.float32)\<close> on rows of different lengths raises.\<close>

definition np_array :: "vector list \<Rightarrow> py_error + vector list" where
  "np_array rows =
     (if \<forall>r \<in> set rows. length r = length (hd rows) then Inr rows else Inl ValueError)"

definition assign_indices :: "nat \<Rightarrow> chunk list \<Rightarrow> chunk list" where
  "assign_indices start_idx chunks =
     map (\<lambda>(i, c). c\<lparr>index := Some (start_idx + i)\<rparr>) (enumerate 0 chunks)"

text \<open>Lines 127 to 145: the dictionary that is written, with the new chunks numbered
  from the number of chunks stored before and, when there is a source file, its entry
  in the file map.\<close>

definition updated_store ::
  "env \<Rightarrow> world \<Rightarrow> store_data \<Rightarrow> chunk list \<Rightarrow> string option \<Rightarrow> faiss_index \<Rightarrow> store_data" where
  "updated_store ev w existing_data chunks source_file ix =
     (let start_idx = length (store_chunks existing_data)
      in \<lparr>store_index = Some ix,
          store_chunks = store_chunks existing_data @ assign_indices start_idx chunks,
          file_map =
            (if truthy source_file then
               (file_map existing_data)(the source_file \<mapsto>
                  \<lparr>hash = get_file_hash ev w (the source_file),
                   chunk_indices = [start_idx ..< start_idx + length chunks]\<rparr>)
             else file_map existing_data)\<rparr>)"

text \<open>Lines 110 to 148, from the embeddings on.\<close>

definition add_and_save ::
  "env \<Rightarrow> world \<Rightarrow> store_data \<Rightarrow> chunk list \<Rightarrow> string option \<Rightarrow> vector list
     \<Rightarrow> world \<times> (py_error + faiss_index option)" where
  "add_and_save ev w existing_data chunks source_file new_embeddings =
     (if new_embeddings = [] then (w, Inr None)
      else
        (case np_array new_embeddings of
           Inl e \<Rightarrow> (w, Inl e)
         | Inr embeddings_array \<Rightarrow>
             (let dm = length (hd embeddings_array);
                  ix = (case store_index existing_data of
                          None \<Rightarrow> IndexFlatL2 dm
                        | Some i \<Rightarrow> i)
              in case index_add ix embeddings_array of
                   Inl e \<Rightarrow> (w, Inl e)
                 | Inr ix' \<Rightarrow>
                     (w\<lparr>store_file := Some (Stored
                          (updated_store ev w existing_data chunks source_file ix'))\<rparr>,
                      Inr (Some ix')))))"

text \<open>The result is the world after the call and either the exception that left the
  function or its return value (\<open>None\<close> or the index).\<close>

definition build_vector_store ::
  "env \<Rightarrow> world \<Rightarrow> chunk list \<Rightarrow> string option \<Rightarrow> world \<times> (py_error + faiss_index option)" where
  "build_vector_store ev w chunks source_file =
     (if chunks = [] then (w, Inr None)
      else
        (let w1 = w\<lparr>dirs_made := True\<rparr>;
             existing_data = load_existing w1;
             cached = cached_embeddings ev w1 source_file
         in if cached \<noteq> [] then add_and_save ev w1 existing_data chunks source_file cached
            else
              (case generate_embeddings ev w1 chunks source_file of
                 (w2, Inl e) \<Rightarrow> (w2, Inl e)
               | (w2, Inr new_embeddings) \<Rightarrow>
                   add_and_save ev w2 existing_data chunks source_file new_embeddings)))"

subsection \<open>Strings\<close>











subsection \<open>retrieve and hybrid\_search\<close>








subsection \<open>A small environment and store for concrete runs\<close>

text \<open>A service that embeds a text of \<open>n\<close> characters as \<open>(n, 1)\<close> and fails on the
  empty text, a digest that is not empty, an exact search by squared distance, and
  scores in binary32.\<close>

definition example_env :: env where
  "example_env =
     \<lparr>api_key = True,
      embed_content = (\<lambda>calls t. if t = [] then None else Some [real (length t), 1]),
      md5_hexdigest = (\<lambda>content. ''md5-'' @ content),
      knn = (\<lambda>rows q k. take k (sort_key snd
               (zip (map int [0 ..< length rows])
                    (map (\<lambda>r. sum_list (map (\<lambda>(a, b). (a - b) * (a - b)) (zip q r))) rows)))),
      score_format = Binary32\<rparr>"

definition no_key_env :: env where
  "no_key_env = example_env\<lparr>api_key := False\<rparr>"

definition empty_world :: world where
  "empty_world =
     \<lparr>store_file = None, cache_files = Map.empty,
      source_files = [''notes.pdf'' \<mapsto> ''bytes''], dirs_made = False, provider_log = []\<rparr>"

definition mk_chunk :: "string \<Rightarrow> chunk" where
  "mk_chunk t = \<lparr>text = t, source = ''notes.pdf:page1'', page = 1, headers = [], index = None, similarity = None\<rparr>"

definition example_store :: "nat \<Rightarrow> store_data" where
  "example_store n =
     \<lparr>store_index = Some \<lparr>d = 2, xb = [[2, 1], [4, 1]]\<rparr>,
      store_chunks = map mk_chunk (replicate n ''ab''),
      file_map = Map.empty\<rparr>"

text \<open>A run of \<^verbatim>\<open>build_vector_store\<close> calls, each on the world the one before left;
  \<open>None\<close> when one of them does not return an index.\<close>

fun build_all :: "env \<Rightarrow> world \<Rightarrow> (chunk list \<times> string option) list \<Rightarrow> world option" where
  "build_all ev w [] = Some w"
| "build_all ev w ((chunks, source_file) # calls) =
     (case build_vector_store ev w chunks source_file of
        (w', Inr (Some ix)) \<Rightarrow> build_all ev w' calls
      | _ \<Rightarrow> None)"

text \<open>Three calls in a row: two chunks of a file, then one other chunk given with the
  same unchanged file, then one chunk without a file.\<close>

definition run1 :: "world \<times> (py_error + faiss_index option)" where
  "run1 = build_vector_store example_env empty_world
            [mk_chunk ''ab'', mk_chunk ''abcd''] (Some ''notes.pdf'')"

definition run2 :: "world \<times> (py_error + faiss_index option)" where
  "run2 = build_vector_store example_env (fst run1) [mk_chunk ''abc''] (Some ''notes.pdf'')"

definition run3 :: "world \<times> (py_error + faiss_index option)" where
  "run3 = build_vector_store example_env (fst run2) [mk_chunk ''hello''] None"

section \<open>Properties\<close>

subsection \<open>The embedding operation\<close>

lemma embed_loop_calls: "fst (embed_loop ev calls ts) = calls @ ts"
proof (induction ts arbitrary: calls)
  case Nil
  show ?case by simp
next
  case (Cons t ts)
  from Cons[of "calls @ [t]"] show ?case
    by (cases "embed_loop ev (calls @ [t]) ts") simp
qed

lemma embed_loop_length: "length (snd (embed_loop ev calls ts)) = length ts"
proof (induction ts arbitrary: calls)
  case Nil
  show ?case by simp
next
  case (Cons t ts)
  from Cons[of "calls @ [t]"] show ?case
    by (cases "embed_loop ev (calls @ [t]) ts") simp
qed

lemma embed_loop_nth:
  "i < length ts \<Longrightarrow>
   snd (embed_loop ev calls ts) ! i =
     (case embed_content ev (calls @ take i ts) (ts ! i) of Some v \<Rightarrow> v | None \<Rightarrow> replicate 768 0)"
proof (induction ts arbitrary: calls i)
  case Nil
  then show ?case by simp
next
  case (Cons t ts)
  show ?case
  proof (cases i)
    case 0
    then show ?thesis by (cases "embed_loop ev (calls @ [t]) ts") simp
  next
    case (Suc j)
    with Cons.prems have "j < length ts" by simp
    from Cons.IH[OF this, of "calls @ [t]"] Suc show ?thesis
      by (cases "embed_loop ev (calls @ [t]) ts") simp
  qed
qed

text \<open>
  Claim C7, as amended. When the API key is set, \<^verbatim>\<open>get_embedding\<close> returns, for every
  list of texts, one vector per text in the order of the texts: the vector the service
  gave for that text, or the zero vector of 768 entries where the call for that text
  raised; the calls made are exactly the texts, in order. When the API key is not set
  it raises \<^verbatim>\<open>ValueError\<close> and returns nothing.
\<close>

theorem get_embedding_never_shrinks:
  "(api_key ev \<longrightarrow>
      (\<exists>vs. get_embedding ev calls texts = Inr (calls @ texts, vs) \<and>
            length vs = length texts \<and>
            (\<forall>i < length texts.
               vs ! i = (case embed_content ev (calls @ take i texts) (texts ! i) of
                           Some v \<Rightarrow> v
                         | None \<Rightarrow> replicate 768 0)))) \<and>
   (\<not> api_key ev \<longrightarrow> get_embedding ev calls texts = Inl ValueError)"
proof (intro conjI impI)
  assume k: "api_key ev"
  obtain c vs where e: "embed_loop ev calls texts = (c, vs)" by (cases "embed_loop ev calls texts")
  have "c = calls @ texts" using embed_loop_calls[of ev calls texts] e by simp
  moreover have "length vs = length texts" using embed_loop_length[of ev calls texts] e by simp
  moreover have "\<forall>i < length texts.
      vs ! i = (case embed_content ev (calls @ take i texts) (texts ! i) of
                  Some v \<Rightarrow> v | None \<Rightarrow> replicate 768 0)"
    using embed_loop_nth[of _ texts ev calls] e by simp
  ultimately show "\<exists>vs. get_embedding ev calls texts = Inr (calls @ texts, vs) \<and>
            length vs = length texts \<and>
            (\<forall>i < length texts.
               vs ! i = (case embed_content ev (calls @ take i texts) (texts ! i) of
                           Some v \<Rightarrow> v
                         | None \<Rightarrow> replicate 768 0))"
    using k e by (simp add: get_embedding_def)
next
  assume "\<not> api_key ev"
  then show "get_embedding ev calls texts = Inl ValueError" by (simp add: get_embedding_def)
qed

theorem get_embedding_never_shrinks_witness:
  "api_key example_env \<and>
   get_embedding example_env [] [''abc'', [], ''ab''] =
     Inr ([''abc'', [], ''ab''], [[3, 1], replicate 768 0, [2, 1]]) \<and>
   \<not> api_key no_key_env \<and>
   get_embedding no_key_env [] [''abc'', [], ''ab''] = Inl ValueError"
  using get_embedding_never_shrinks[of example_env "[]" "[''abc'', [], ''ab'']"]
        get_embedding_never_shrinks[of no_key_env "[]" "[''abc'', [], ''ab'']"]
  by (simp add: get_embedding_def no_key_env_def example_env_def)

text \<open>
  Claim C7 as it is written fails: without the API key the operation raises for a list
  of one text instead of returning one vector.
\<close>

theorem get_embedding_missing_key_raises:
  "get_embedding no_key_env [] [''abc''] = Inl ValueError"
  by (simp add: get_embedding_def no_key_env_def example_env_def)

subsection \<open>Loading and clearing\<close>

text \<open>
  Claim C2. \<^verbatim>\<open>load_vector_store\<close> returns \<open>(None, None)\<close> when there is no store file,
  when the file cannot be read, when the stored index is absent and when the number
  of stored chunks differs from the number of vectors of the index; it returns the
  stored index and chunks when the index is there and the two numbers agree. Its
  result is always one of these two: both components absent, or both present and of
  the same size. The function has no exceptional result: what \<^verbatim>\<open>pickle.load\<close> raises
  is turned into \<open>(None, None)\<close>.
\<close>

theorem load_vector_store_gate:
  "(store_file w = None \<longrightarrow> load_vector_store w = (None, None)) \<and>
   (store_file w = Some StoreUnreadable \<longrightarrow> load_vector_store w = (None, None)) \<and>
   (store_file w = Some (Stored dt) \<and> store_index dt = None \<longrightarrow>
      load_vector_store w = (None, None)) \<and>
   (store_file w = Some (Stored dt) \<and> store_index dt = Some ix \<and>
      length (store_chunks dt) \<noteq> ntotal ix \<longrightarrow> load_vector_store w = (None, None)) \<and>
   (store_file w = Some (Stored dt) \<and> store_index dt = Some ix \<and>
      length (store_chunks dt) = ntotal ix \<longrightarrow>
      load_vector_store w = (Some ix, Some (store_chunks dt))) \<and>
   (load_vector_store w = (None, None) \<or>
      (\<exists>dt' ix'. store_file w = Some (Stored dt') \<and> store_index dt' = Some ix' \<and>
         length (store_chunks dt') = ntotal ix' \<and>
         load_vector_store w = (Some ix', Some (store_chunks dt'))))"
  by (auto simp: load_vector_store_def pickle_load_store_def
           split: option.splits store_artifact.splits sum.splits)

theorem load_vector_store_gate_witness:
  "load_vector_store empty_world = (None, None) \<and>
   load_vector_store (empty_world\<lparr>store_file := Some StoreUnreadable\<rparr>) = (None, None) \<and>
   load_vector_store (empty_world\<lparr>store_file := Some (Stored ((example_store 2)\<lparr>store_index := None\<rparr>))\<rparr>) = (None, None) \<and>
   load_vector_store (empty_world\<lparr>store_file := Some (Stored (example_store 3))\<rparr>) = (None, None) \<and>
   load_vector_store (empty_world\<lparr>store_file := Some (Stored (example_store 2))\<rparr>)
     = (Some \<lparr>d = 2, xb = [[2, 1], [4, 1]]\<rparr>, Some [mk_chunk ''ab'', mk_chunk ''ab''])"
  using load_vector_store_gate[of empty_world]
        load_vector_store_gate[of "empty_world\<lparr>store_file := Some StoreUnreadable\<rparr>"]
        load_vector_store_gate[of "empty_world\<lparr>store_file := Some (Stored ((example_store 2)\<lparr>store_index := None\<rparr>))\<rparr>"
           "(example_store 2)\<lparr>store_index := None\<rparr>"]
        load_vector_store_gate[of "empty_world\<lparr>store_file := Some (Stored (example_store 3))\<rparr>"
           "example_store 3" "\<lparr>d = 2, xb = [[2, 1], [4, 1]]\<rparr>"]
        load_vector_store_gate[of "empty_world\<lparr>store_file := Some (Stored (example_store 2))\<rparr>"
           "example_store 2" "\<lparr>d = 2, xb = [[2, 1], [4, 1]]\<rparr>"]
  by (simp add: empty_world_def example_store_def ntotal_def numeral_2_eq_2 numeral_3_eq_3)

text \<open>
  Claim C9. When the store file exists, \<^verbatim>\<open>clear_vector_store\<close> deletes it and returns
  true, a second call right after returns false, and loading after the clear gives
  \<open>(None, None)\<close>; when the store file does not exist it returns false and changes
  nothing.
\<close>

theorem clear_vector_store_once:
  "(store_file w \<noteq> None \<longrightarrow>
      snd (clear_vector_store w) \<and>
      store_file (fst (clear_vector_store w)) = None \<and>
      \<not> snd (clear_vector_store (fst (clear_vector_store w))) \<and>
      load_vector_store (fst (clear_vector_store w)) = (None, None)) \<and>
   (store_file w = None \<longrightarrow> clear_vector_store w = (w, False)) \<and>
   load_vector_store (fst (clear_vector_store w)) = (None, None)"
  by (auto simp: clear_vector_store_def load_vector_store_def)

theorem clear_vector_store_once_witness:
  "snd (clear_vector_store (empty_world\<lparr>store_file := Some (Stored (example_store 2))\<rparr>)) \<and>
   \<not> snd (clear_vector_store (fst (clear_vector_store (empty_world\<lparr>store_file := Some (Stored (example_store 2))\<rparr>)))) \<and>
   load_vector_store (fst (clear_vector_store (empty_world\<lparr>store_file := Some (Stored (example_store 2))\<rparr>))) = (None, None) \<and>
   clear_vector_store empty_world = (empty_world, False)"
  using clear_vector_store_once[of "empty_world\<lparr>store_file := Some (Stored (example_store 2))\<rparr>"]
        clear_vector_store_once[of empty_world]
  by (simp add: empty_world_def)

subsection \<open>The similarity score\<close>

text \<open>Rounding to the nearest number of the format: it leaves the numbers of the
  format as they are, keeps the order, and sends every number from \<open>1\<close> up to and
  including \<open>1 + 2 powi (- p)\<close> to \<open>1\<close>, where \<open>p\<close> is the precision.\<close>

lemma round_half_even_of_int: "round_half_even (of_int n) = n"
  by (simp add: round_half_even_def)

lemma round_half_even_bounds: "\<lfloor>x\<rfloor> \<le> round_half_even x \<and> round_half_even x \<le> \<lfloor>x\<rfloor> + 1"
  by (simp add: round_half_even_def Let_def)

lemma round_half_even_mono:
  assumes "x \<le> y"
  shows "round_half_even x \<le> round_half_even y"
proof (cases "\<lfloor>x\<rfloor> = \<lfloor>y\<rfloor>")
  case True
  have "x - of_int \<lfloor>x\<rfloor> \<le> y - of_int \<lfloor>y\<rfloor>" using assms True by simp
  then show ?thesis
    using True by (auto simp: round_half_even_def Let_def)
next
  case False
  have "\<lfloor>x\<rfloor> \<le> \<lfloor>y\<rfloor>" using assms by (rule floor_mono)
  with False have "\<lfloor>x\<rfloor> + 1 \<le> \<lfloor>y\<rfloor>" by simp
  with round_half_even_bounds[of x] round_half_even_bounds[of y] show ?thesis by linarith
qed

lemma round_half_even_near:
  assumes "of_int n \<le> x" and "x < of_int n + 1 / 2"
  shows "round_half_even x = n"
proof -
  have f: "\<lfloor>x\<rfloor> = n" using assms by linarith
  show ?thesis using assms by (simp add: round_half_even_def f Let_def)
qed

lemma binade_bounds:
  assumes "0 < x"
  shows "2 powi binade x \<le> x \<and> x < 2 powi (binade x + 1)"
proof (cases "1 \<le> x")
  case True
  let ?n = "\<lfloor>x\<rfloor>"
  have n: "0 < ?n" using True by simp
  have b1: "1 \<le> bitlen ?n" using n bitlen_eq_zero_iff[of ?n] bitlen_nonneg[of ?n] by linarith
  from bitlen_bounds[OF n] have lo: "2 ^ nat (bitlen ?n - 1) \<le> ?n" and hi: "?n < 2 ^ nat (bitlen ?n)"
    by simp_all
  have e: "binade x = bitlen ?n - 1" using True assms by (simp add: binade_def)
  have "(2::real) powi (bitlen ?n - 1) = of_int (2 ^ nat (bitlen ?n - 1))"
    using b1 by (simp add: power_int_def)
  also have "\<dots> \<le> of_int ?n" using lo by (simp only: of_int_le_iff)
  also have "\<dots> \<le> x" by simp
  finally have l: "2 powi (bitlen ?n - 1) \<le> x" .
  have "?n + 1 \<le> 2 ^ nat (bitlen ?n)" using hi by simp
  then have "real_of_int (?n + 1) \<le> of_int (2 ^ nat (bitlen ?n))" by (simp only: of_int_le_iff)
  moreover have "x < real_of_int (?n + 1)" by linarith
  moreover have "(2::real) powi (bitlen ?n) = of_int (2 ^ nat (bitlen ?n))"
    using b1 by (simp add: power_int_def)
  ultimately have u: "x < 2 powi (bitlen ?n)" by linarith
  show ?thesis using l u by (simp add: e)
next
  case False
  let ?y = "1 / x"
  let ?m = "\<lceil>?y\<rceil> - 1"
  have x1: "x < 1" using False by simp
  have y1: "1 < ?y" using assms x1 by simp
  have m: "0 < ?m" using y1 by linarith
  have b1: "1 \<le> bitlen ?m" using m bitlen_eq_zero_iff[of ?m] bitlen_nonneg[of ?m] by linarith
  from bitlen_bounds[OF m] have lo: "2 ^ nat (bitlen ?m - 1) \<le> ?m" and hi: "?m < 2 ^ nat (bitlen ?m)"
    by simp_all
  have e: "binade x = - bitlen ?m" using False assms by (simp add: binade_def)
  have p: "(2::real) powi (bitlen ?m) = of_int (2 ^ nat (bitlen ?m))"
    using b1 by (simp add: power_int_def)
  have p1: "(2::real) powi (bitlen ?m - 1) = of_int (2 ^ nat (bitlen ?m - 1))"
    using b1 by (simp add: power_int_def)
  have "?m + 1 \<le> 2 ^ nat (bitlen ?m)" using hi by simp
  then have "real_of_int (?m + 1) \<le> of_int (2 ^ nat (bitlen ?m))" by (simp only: of_int_le_iff)
  moreover have "?y \<le> real_of_int (?m + 1)" by linarith
  ultimately have yu: "?y \<le> 2 powi (bitlen ?m)" using p by linarith
  have "real_of_int (2 ^ nat (bitlen ?m - 1)) \<le> of_int ?m" using lo by (simp only: of_int_le_iff)
  moreover have "real_of_int ?m < ?y" by linarith
  ultimately have yl: "2 powi (bitlen ?m - 1) < ?y" using p1 by linarith
  have pp: "(0::real) < 2 powi (bitlen ?m)" "(0::real) < 2 powi (bitlen ?m - 1)" by simp_all
  have l: "2 powi (- bitlen ?m) \<le> x"
  proof -
    have y0: "0 < ?y" using y1 by linarith
    have "1 / 2 powi (bitlen ?m) \<le> 1 / ?y"
      using frac_le[of 1 1 ?y "2 powi (bitlen ?m)"] yu y0 by simp
    then show ?thesis using assms by (simp add: power_int_minus inverse_eq_divide)
  qed
  have u: "x < 2 powi (- bitlen ?m + 1)"
  proof -
    have "1 / ?y < 1 / 2 powi (bitlen ?m - 1)"
      using frac_less2[of 1 1 "2 powi (bitlen ?m - 1)" ?y] yl pp(2) by simp
    moreover have "(2::real) powi (- bitlen ?m + 1) = 1 / 2 powi (bitlen ?m - 1)"
      using power_int_minus[of "2::real" "bitlen ?m - 1"] by (simp add: inverse_eq_divide)
    ultimately show ?thesis using assms by simp
  qed
  show ?thesis using l u by (simp add: e)
qed

lemma powi_less_imp_less:
  assumes "(2::real) powi a < 2 powi b"
  shows "a < b"
proof (rule ccontr)
  assume "\<not> a < b"
  then have "b \<le> a" by simp
  then have "(2::real) powi b \<le> 2 powi a" by (intro power_int_increasing) simp_all
  with assms show False by linarith
qed

lemma binade_eqI:
  assumes "2 powi k \<le> x" and "x < 2 powi (k + 1)"
  shows "binade x = k"
proof -
  have "(0::real) < 2 powi k" by simp
  with assms(1) have pos: "0 < x" by linarith
  from binade_bounds[OF pos] have b: "2 powi binade x \<le> x" "x < 2 powi (binade x + 1)"
    by simp_all
  have "(2::real) powi k < 2 powi (binade x + 1)" using assms(1) b(2) by linarith
  then have "k < binade x + 1" by (rule powi_less_imp_less)
  moreover have "(2::real) powi binade x < 2 powi (k + 1)" using assms(2) b(1) by linarith
  then have "binade x < k + 1" by (rule powi_less_imp_less)
  ultimately show ?thesis by simp
qed

lemma binade_mono:
  assumes "0 < x" and "x \<le> y"
  shows "binade x \<le> binade y"
proof -
  have py: "0 < y" using assms by simp
  from binade_bounds[OF assms(1)] binade_bounds[OF py] assms(2)
  have "(2::real) powi binade x < 2 powi (binade y + 1)" by linarith
  then have "binade x < binade y + 1" by (rule powi_less_imp_less)
  then show ?thesis by simp
qed

lemma precision_ge: "2 \<le> precision fm"
  by (cases fm) simp_all

lemma quantum_pos: "0 < quantum fm x"
  by (simp add: quantum_def)

lemma binade_powi: "binade (2 powi j) = j"
  by (rule binade_eqI) (simp_all add: power_int_strict_increasing)

lemma fl_exact:
  assumes "x \<noteq> 0" and "x = of_int n * quantum fm x"
  shows "fl fm x = x"
proof -
  have "x / quantum fm x = of_int n"
    using assms(2) quantum_pos[of fm x] by (simp add: field_simps)
  then show ?thesis using assms by (simp add: fl_def round_half_even_of_int)
qed

lemma powi_nonneg_int:
  assumes "0 \<le> k"
  shows "(2::real) powi k = of_int (2 ^ nat k)"
  using assms by (simp add: power_int_def)

lemma powi_split: "(2::real) powi a = 2 powi (a - b) * 2 powi b"
  by (simp flip: power_int_add)

lemma fl_powi:
  assumes "emin fm - (int (precision fm) - 1) \<le> j"
  shows "fl fm (2 powi j) = 2 powi j"
proof -
  let ?k = "max j (emin fm) - (int (precision fm) - 1)"
  have q: "quantum fm (2 powi j) = 2 powi ?k"
    by (simp add: quantum_def binade_powi)
  have "0 \<le> j - ?k" using assms precision_ge[of fm] by (simp add: max_def)
  then have n: "(2::real) powi (j - ?k) = of_int (2 ^ nat (j - ?k))" by (rule powi_nonneg_int)
  have s: "(2::real) powi j = 2 powi (j - ?k) * 2 powi ?k" by (rule powi_split)
  have e: "(2::real) powi j = of_int (2 ^ nat (j - ?k)) * quantum fm (2 powi j)"
    by (metis s n q)
  have z: "(2::real) powi j \<noteq> 0" by simp
  show ?thesis by (rule fl_exact[OF z e])
qed

lemma fl_one: "fl fm 1 = 1"
  using fl_powi[of fm 0] precision_ge[of fm] by (cases fm) simp_all

lemma fl_normal_range:
  assumes "0 < x" and "emin fm \<le> binade x"
  shows "2 powi binade x \<le> fl fm x \<and> fl fm x \<le> 2 powi (binade x + 1)"
proof -
  let ?e = "binade x"
  let ?P = "int (precision fm) - 1"
  let ?q = "(2::real) powi (?e - ?P)"
  have q: "quantum fm x = ?q" using assms(2) by (simp add: quantum_def max_def)
  have qp: "0 < ?q" by simp
  have P0: "0 \<le> ?P" and P1: "0 \<le> ?P + 1" using precision_ge[of fm] by simp_all
  have lo: "2 powi ?e = of_int (2 ^ nat ?P) * ?q"
    using powi_split[of ?e "?e - ?P"] powi_nonneg_int[OF P0] by simp
  have hi: "2 powi (?e + 1) = of_int (2 ^ nat (?P + 1)) * ?q"
    using powi_split[of "?e + 1" "?e - ?P"] powi_nonneg_int[OF P1] by simp
  from binade_bounds[OF assms(1)] have "of_int (2 ^ nat ?P) * ?q \<le> x" and "x \<le> of_int (2 ^ nat (?P + 1)) * ?q"
    using lo hi by simp_all
  then have "of_int (2 ^ nat ?P) \<le> x / ?q" and "x / ?q \<le> of_int (2 ^ nat (?P + 1))"
    using qp by (simp_all add: field_simps)
  then have "round_half_even (of_int (2 ^ nat ?P)) \<le> round_half_even (x / ?q)"
    and "round_half_even (x / ?q) \<le> round_half_even (of_int (2 ^ nat (?P + 1)))"
    by (simp_all only: round_half_even_mono)
  then have "2 ^ nat ?P \<le> round_half_even (x / ?q)" and "round_half_even (x / ?q) \<le> 2 ^ nat (?P + 1)"
    by (simp_all only: round_half_even_of_int)
  then have "of_int (2 ^ nat ?P) * ?q \<le> of_int (round_half_even (x / ?q)) * ?q"
    and "of_int (round_half_even (x / ?q)) * ?q \<le> of_int (2 ^ nat (?P + 1)) * ?q"
    using qp by (simp_all only: mult_le_cancel_right_pos of_int_le_iff)
  then show ?thesis
    using assms(1) lo hi by (simp add: fl_def q)
qed

lemma fl_subnormal_range:
  assumes "0 < x" and "binade x < emin fm"
  shows "0 \<le> fl fm x \<and> fl fm x \<le> 2 powi emin fm"
proof -
  let ?P = "int (precision fm) - 1"
  let ?q = "(2::real) powi (emin fm - ?P)"
  have q: "quantum fm x = ?q" using assms(2) by (simp add: quantum_def max_def)
  have qp: "0 < ?q" by simp
  have P0: "0 \<le> ?P" using precision_ge[of fm] by simp
  have hi: "2 powi emin fm = of_int (2 ^ nat ?P) * ?q"
    using powi_split[of "emin fm" "emin fm - ?P"] powi_nonneg_int[OF P0] by simp
  have "x < 2 powi (binade x + 1)" using binade_bounds[OF assms(1)] by simp
  also have "\<dots> \<le> 2 powi emin fm" using assms(2) by (intro power_int_increasing) simp_all
  finally have "x \<le> of_int (2 ^ nat ?P) * ?q" using hi by simp
  then have "x / ?q \<le> of_int (2 ^ nat ?P)" using qp by (simp add: field_simps)
  moreover have "of_int 0 \<le> x / ?q" using assms(1) qp by simp
  ultimately have "round_half_even (of_int 0) \<le> round_half_even (x / ?q)"
    and "round_half_even (x / ?q) \<le> round_half_even (of_int (2 ^ nat ?P))"
    by (simp_all only: round_half_even_mono)
  then have "0 \<le> round_half_even (x / ?q)" and "round_half_even (x / ?q) \<le> 2 ^ nat ?P"
    by (simp_all only: round_half_even_of_int)
  then have "0 \<le> of_int (round_half_even (x / ?q)) * ?q"
    and "of_int (round_half_even (x / ?q)) * ?q \<le> of_int (2 ^ nat ?P) * ?q"
    using qp by (simp_all only: mult_le_cancel_right_pos of_int_le_iff zero_le_mult_iff of_int_0_le_iff)
      (simp_all)
  then show ?thesis
    using assms(1) hi by (simp add: fl_def q)
qed

lemma fl_nonneg: "0 \<le> x \<Longrightarrow> 0 \<le> fl fm x"
proof (cases "x = 0")
  case True
  then show ?thesis by (simp add: fl_def)
next
  case False
  assume "0 \<le> x"
  with False have p: "0 < x" by simp
  show ?thesis
  proof (cases "emin fm \<le> binade x")
    case True
    have "(0::real) < 2 powi binade x" by simp
    with fl_normal_range[OF p True] show ?thesis by linarith
  next
    case False
    then have "binade x < emin fm" by simp
    from fl_subnormal_range[OF p this] show ?thesis by simp
  qed
qed

lemma fl_mono:
  assumes "0 \<le> x" and "x \<le> y"
  shows "fl fm x \<le> fl fm y"
proof (cases "x = 0")
  case True
  then show ?thesis using assms fl_nonneg[of y fm] by (simp add: fl_def)
next
  case False
  with assms have px: "0 < x" and py: "0 < y" by simp_all
  have b: "binade x \<le> binade y" using px assms(2) by (rule binade_mono)
  let ?mx = "max (binade x) (emin fm)"
  let ?my = "max (binade y) (emin fm)"
  show ?thesis
  proof (cases "?mx = ?my")
    case True
    have q: "quantum fm x = quantum fm y" using True by (simp add: quantum_def)
    have "x / quantum fm y \<le> y / quantum fm y"
      using assms(2) quantum_pos[of fm y] by (simp add: divide_right_mono)
    then have "round_half_even (x / quantum fm y) \<le> round_half_even (y / quantum fm y)"
      by (rule round_half_even_mono)
    then have "of_int (round_half_even (x / quantum fm y)) * quantum fm y
                 \<le> of_int (round_half_even (y / quantum fm y)) * quantum fm y"
      using quantum_pos[of fm y] by (simp only: mult_le_cancel_right_pos of_int_le_iff)
    then show ?thesis using px py by (simp add: fl_def q)
  next
    case False
    with b have lt: "?mx < ?my" by (simp add: max_def split: if_splits)
    then have ny: "emin fm \<le> binade y" and my: "?my = binade y"
      by (simp_all add: max_def split: if_splits)
    have "fl fm x \<le> 2 powi ?my"
    proof (cases "emin fm \<le> binade x")
      case True
      with lt my have "binade x + 1 \<le> binade y" by (simp add: max_def)
      then have "(2::real) powi (binade x + 1) \<le> 2 powi binade y"
        by (intro power_int_increasing) simp_all
      with fl_normal_range[OF px True] my show ?thesis by simp
    next
      case False
      then have s: "binade x < emin fm" by simp
      have "(2::real) powi emin fm \<le> 2 powi binade y"
        using ny by (intro power_int_increasing) simp_all
      with fl_subnormal_range[OF px s] my show ?thesis by simp
    qed
    with fl_normal_range[OF py ny] my show ?thesis by simp
  qed
qed

lemma round_half_even_tie:
  assumes "of_int n \<le> x" and "x \<le> of_int n + 1 / 2" and "even n"
  shows "round_half_even x = n"
proof -
  have f: "\<lfloor>x\<rfloor> = n" using assms by linarith
  show ?thesis using assms by (simp add: round_half_even_def f Let_def)
qed

lemma round_half_even_up:
  assumes "of_int n + 1 / 2 < x" and "x < of_int n + 1"
  shows "round_half_even x = n + 1"
proof -
  have f: "\<lfloor>x\<rfloor> = n" using assms by linarith
  show ?thesis using assms by (simp add: round_half_even_def f Let_def)
qed

lemma half_ulp_bounds:
  "0 < (2::real) powi (- int (precision fm)) \<and> (2::real) powi (- int (precision fm)) \<le> 1 / 4"
proof -
  have "(2::real) powi (- int (precision fm)) \<le> 2 powi (- 2)"
    using precision_ge[of fm] by (intro power_int_increasing) simp_all
  then show ?thesis by (simp add: power_int_minus)
qed

lemma quantum_near_one:
  assumes "1 \<le> x" and "x < 2"
  shows "quantum fm x = 2 * 2 powi (- int (precision fm))"
proof -
  have b: "binade x = 0" using assms by (intro binade_eqI) simp_all
  have e: "emin fm \<le> 0" by (cases fm) simp_all
  have "quantum fm x = 2 powi (1 + (- int (precision fm)))"
    using e by (simp add: quantum_def b max_def)
  also have "\<dots> = 2 powi 1 * 2 powi (- int (precision fm))"
    by (rule power_int_add) simp
  finally show ?thesis by simp
qed

lemma mantissa_one:
  "(2::real) ^ (precision fm - 1) * (2 * 2 powi (- int (precision fm))) = 1"
proof -
  have "(2::real) ^ (precision fm - 1) * 2 = 2 ^ precision fm"
    using precision_ge[of fm] by (cases "precision fm") simp_all
  then have "(2::real) ^ (precision fm - 1) * (2 * 2 powi (- int (precision fm)))
               = 2 ^ precision fm * 2 powi (- int (precision fm))"
    by simp
  also have "\<dots> = 2 powi (int (precision fm)) * 2 powi (- int (precision fm))" by simp
  also have "\<dots> = 2 powi (int (precision fm) + (- int (precision fm)))"
    by (rule power_int_add[symmetric]) simp
  finally show ?thesis by simp
qed

lemma fl_near_one:
  assumes "0 \<le> dd" and "dd \<le> 2 powi (- int (precision fm))"
  shows "fl fm (1 + dd) = 1"
proof -
  let ?h = "(2::real) powi (- int (precision fm))"
  let ?N = "(2::int) ^ (precision fm - 1)"
  let ?x = "1 + dd"
  from half_ulp_bounds[of fm] have h: "0 < ?h" "?h \<le> 1 / 4" by simp_all
  have x: "1 \<le> ?x" "?x < 2" using assms h by simp_all
  have q: "quantum fm ?x = 2 * ?h" using x by (rule quantum_near_one)
  have m: "of_int ?N * (2 * ?h) = 1" using mantissa_one[of fm] by simp
  have r: "?x / (2 * ?h) = of_int ?N + dd / (2 * ?h)"
  proof -
    have "?x / (2 * ?h) = 1 / (2 * ?h) + dd / (2 * ?h)" by (simp add: add_divide_distrib)
    moreover have "1 / (2 * ?h) = of_int ?N" using m h by (simp add: field_simps)
    ultimately show ?thesis by simp
  qed
  have t: "0 \<le> dd / (2 * ?h)" "dd / (2 * ?h) \<le> 1 / 2"
    using assms h by (simp_all add: field_simps)
  have ev: "even ?N" using precision_ge[of fm] by simp
  have "round_half_even (?x / (2 * ?h)) = ?N"
    unfolding r using t ev by (intro round_half_even_tie) simp_all
  then show ?thesis using x m by (simp add: fl_def q)
qed

lemma fl_succ_one:
  "fl fm (1 + 2 * 2 powi (- int (precision fm))) = 1 + 2 * 2 powi (- int (precision fm))"
proof -
  let ?h = "(2::real) powi (- int (precision fm))"
  let ?N = "(2::int) ^ (precision fm - 1)"
  let ?x = "1 + 2 * ?h"
  from half_ulp_bounds[of fm] have h: "0 < ?h" "?h \<le> 1 / 4" by simp_all
  have x: "1 \<le> ?x" "?x < 2" using h by simp_all
  have q: "quantum fm ?x = 2 * ?h" using x by (rule quantum_near_one)
  have m: "of_int ?N * (2 * ?h) = 1" using mantissa_one[of fm] by simp
  have nz: "?x \<noteq> 0" using h by linarith
  have "?x = of_int (?N + 1) * quantum fm ?x"
    unfolding q using m by (simp add: algebra_simps)
  then show ?thesis by (rule fl_exact[OF nz])
qed

lemma fl_above_one:
  assumes "2 powi (- int (precision fm)) < dd"
  shows "1 + 2 * 2 powi (- int (precision fm)) \<le> fl fm (1 + dd)"
proof -
  let ?h = "(2::real) powi (- int (precision fm))"
  let ?N = "(2::int) ^ (precision fm - 1)"
  let ?x = "1 + dd"
  from half_ulp_bounds[of fm] have h: "0 < ?h" "?h \<le> 1 / 4" by simp_all
  show ?thesis
  proof (cases "2 * ?h \<le> dd")
    case True
    have "fl fm (1 + 2 * ?h) \<le> fl fm ?x"
      using True h by (intro fl_mono) simp_all
    then show ?thesis by (simp add: fl_succ_one)
  next
    case False
    have x: "1 \<le> ?x" "?x < 2" using assms False h by simp_all
    have q: "quantum fm ?x = 2 * ?h" using x by (rule quantum_near_one)
    have m: "of_int ?N * (2 * ?h) = 1" using mantissa_one[of fm] by simp
    have r: "?x / (2 * ?h) = of_int ?N + dd / (2 * ?h)"
    proof -
      have "?x / (2 * ?h) = 1 / (2 * ?h) + dd / (2 * ?h)" by (simp add: add_divide_distrib)
      moreover have "1 / (2 * ?h) = of_int ?N" using m h by (simp add: field_simps)
      ultimately show ?thesis by simp
    qed
    have t: "1 / 2 < dd / (2 * ?h)" "dd / (2 * ?h) < 1"
      using assms False h by (simp_all add: field_simps)
    have "round_half_even (?x / (2 * ?h)) = ?N + 1"
      unfolding r using t by (intro round_half_even_up) simp_all
    then have "fl fm ?x = of_int (?N + 1) * (2 * ?h)" using x by (simp add: fl_def q)
    also have "\<dots> = 1 + 2 * ?h" using m by (simp add: algebra_simps)
    finally show ?thesis by simp
  qed
qed

lemma fl_pred_one:
  "fl fm (1 - 2 powi (- int (precision fm))) = 1 - 2 powi (- int (precision fm))"
proof -
  let ?h = "(2::real) powi (- int (precision fm))"
  let ?x = "1 - ?h"
  from half_ulp_bounds[of fm] have h: "0 < ?h" "?h \<le> 1 / 4" by simp_all
  have b: "binade ?x = - 1"
    using h by (intro binade_eqI) (simp_all add: power_int_minus)
  have e: "emin fm \<le> - 1" by (cases fm) simp_all
  have q: "quantum fm ?x = ?h"
    using e by (simp add: quantum_def b max_def)
  have p: "(2::real) ^ precision fm * ?h = 1"
  proof -
    have "(2::real) ^ precision fm * ?h = 2 powi (int (precision fm)) * 2 powi (- int (precision fm))"
      by simp
    also have "\<dots> = 2 powi (int (precision fm) + (- int (precision fm)))"
      by (rule power_int_add[symmetric]) simp
    finally show ?thesis by simp
  qed
  have nz: "?x \<noteq> 0" using h by simp
  have "?x = of_int (2 ^ precision fm - 1) * quantum fm ?x"
    unfolding q using p by (simp add: algebra_simps)
  then show ?thesis by (rule fl_exact[OF nz])
qed

lemma similarity_small: 
  assumes "0 \<le> dd" and "dd \<le> 2 powi (- int (precision fm))"
  shows "similarity_of fm dd = 1"
  using fl_near_one[OF assms] by (simp add: similarity_of_def fl_one)

lemma similarity_not_small:
  assumes "2 powi (- int (precision fm)) < dd"
  shows "similarity_of fm dd \<le> 1 - 2 powi (- int (precision fm))"
proof -
  let ?h = "(2::real) powi (- int (precision fm))"
  let ?y = "fl fm (1 + dd)"
  from half_ulp_bounds[of fm] have h: "0 < ?h" "?h \<le> 1 / 4" by simp_all
  have y: "1 + 2 * ?h \<le> ?y" using assms by (rule fl_above_one)
  have ap: "0 < 1 + 2 * ?h" using h by linarith
  have "1 / ?y \<le> 1 / (1 + 2 * ?h)"
    using frac_le[of 1 1 "1 + 2 * ?h" ?y] y ap by simp
  also have "\<dots> \<le> 1 - ?h"
  proof -
    have "1 \<le> (1 - ?h) * (1 + 2 * ?h)"
    proof -
      have "(1 - ?h) * (1 + 2 * ?h) = 1 + ?h * (1 - 2 * ?h)" by (simp add: algebra_simps)
      moreover have "0 \<le> ?h * (1 - 2 * ?h)" using h by (intro mult_nonneg_nonneg) simp_all
      ultimately show ?thesis by simp
    qed
    then show ?thesis using ap by (simp only: pos_divide_le_eq)
  qed
  finally have le: "1 / ?y \<le> 1 - ?h" .
  have "0 < ?y" using y ap by linarith
  then have "0 \<le> 1 / ?y" by simp
  from fl_mono[OF this le, of fm] show ?thesis
    by (simp add: similarity_of_def fl_pred_one)
qed

lemma similarity_one_iff:
  assumes "0 \<le> dd"
  shows "similarity_of fm dd = 1 \<longleftrightarrow> dd \<le> 2 powi (- int (precision fm))"
proof (cases "dd \<le> 2 powi (- int (precision fm))")
  case True
  with similarity_small[OF assms True] show ?thesis by simp
next
  case False
  then have "2 powi (- int (precision fm)) < dd" by simp
  from similarity_not_small[OF this] half_ulp_bounds[of fm] have "similarity_of fm dd < 1"
    by linarith
  with False show ?thesis by simp
qed

lemma fl_ge_one: "0 \<le> dd \<Longrightarrow> 1 \<le> fl fm (1 + dd)"
  using fl_mono[of 1 "1 + dd" fm] by (simp add: fl_one)

lemma similarity_antimono:
  assumes "0 \<le> d1" and "d1 \<le> d2"
  shows "similarity_of fm d2 \<le> similarity_of fm d1"
proof -
  have y1: "1 \<le> fl fm (1 + d1)" using assms(1) by (rule fl_ge_one)
  have "fl fm (1 + d1) \<le> fl fm (1 + d2)" using assms by (intro fl_mono) simp_all
  then have "1 / fl fm (1 + d2) \<le> 1 / fl fm (1 + d1)"
    using y1 by (intro divide_left_mono) (simp_all add: mult_pos_pos)
  moreover have "0 \<le> 1 / fl fm (1 + d2)" using y1 \<open>fl fm (1 + d1) \<le> fl fm (1 + d2)\<close> by simp
  ultimately show ?thesis unfolding similarity_of_def by (rule fl_mono[rotated])
qed

lemma similarity_range:
  assumes "0 \<le> dd"
  shows "0 \<le> similarity_of fm dd \<and> similarity_of fm dd \<le> 1"
proof -
  have y: "1 \<le> fl fm (1 + dd)" using assms by (rule fl_ge_one)
  then have a: "0 \<le> 1 / fl fm (1 + dd)" and b: "1 / fl fm (1 + dd) \<le> 1" by simp_all
  from fl_nonneg[OF a, of fm] fl_mono[OF a b, of fm] show ?thesis
    by (simp add: similarity_of_def fl_one)
qed

lemma similarity_pos:
  assumes "0 \<le> dd" and "dd < 2 ^ 128"
  shows "0 < similarity_of fm dd"
proof -
  have y: "1 \<le> fl fm (1 + dd)" using assms(1) by (rule fl_ge_one)
  have e: "emin fm - (int (precision fm) - 1) \<le> - 129" "emin fm - (int (precision fm) - 1) \<le> 129"
    by (cases fm; simp)+
  have "1 + dd \<le> 2 powi 129" using assms(2) by simp
  then have "fl fm (1 + dd) \<le> fl fm (2 powi 129)" using assms(1) by (intro fl_mono) simp_all
  then have u: "fl fm (1 + dd) \<le> 2 powi 129" using fl_powi[OF e(2)] by simp
  have "(2::real) powi (- 129) = 1 / 2 powi 129" by (simp add: power_int_minus inverse_eq_divide)
  also have "\<dots> \<le> 1 / fl fm (1 + dd)"
    using u y by (intro divide_left_mono) (simp_all add: mult_pos_pos)
  finally have "fl fm (2 powi (- 129)) \<le> fl fm (1 / fl fm (1 + dd))"
    by (intro fl_mono) simp_all
  then have "2 powi (- 129) \<le> similarity_of fm dd"
    using fl_powi[OF e(1)] by (simp add: similarity_of_def)
  moreover have "(0::real) < 2 powi (- 129)" by simp
  ultimately show ?thesis by linarith
qed

text \<open>
  Claim C6, as amended. The score that \<^verbatim>\<open>retrieve\<close> computes is \<open>1 / (1 + d)\<close> in
  floating point, \<open>fl (1 / fl (1 + d))\<close>. On distances that are not negative it is
  decreasing, but not strictly: a greater distance never gives a greater score. It
  lies between zero and one, and is greater than zero for every distance below
  \<open>2 ^ 128\<close>, so for every finite 32-bit float. It is one exactly for the distances up
  to \<open>2 powi (- p)\<close>, where \<open>p\<close> is the precision of the format (24 or 53): at
  distance zero, and also at small distances that are not zero.
\<close>

theorem similarity_rounded:
  "(0 \<le> d1 \<and> d1 \<le> d2 \<longrightarrow> similarity_of fm d2 \<le> similarity_of fm d1) \<and>
   (0 \<le> dd \<longrightarrow>
      0 \<le> similarity_of fm dd \<and> similarity_of fm dd \<le> 1 \<and>
      (similarity_of fm dd = 1 \<longleftrightarrow> dd \<le> 2 powi (- int (precision fm)))) \<and>
   (0 \<le> dd \<and> dd < 2 ^ 128 \<longrightarrow> 0 < similarity_of fm dd)"
  using similarity_antimono[of d1 d2 fm] similarity_range[of dd fm]
        similarity_one_iff[of dd fm] similarity_pos[of dd fm]
  by blast

theorem similarity_rounded_witness:
  "(0::real) \<le> 1 \<and> (1::real) \<le> 3 \<and> similarity_of Binary32 3 \<le> similarity_of Binary32 1 \<and>
   similarity_of Binary32 1 = 1 / 2 \<and> similarity_of Binary32 3 = 1 / 4 \<and>
   0 < similarity_of Binary32 3 \<and> similarity_of Binary32 3 \<le> 1 \<and>
   similarity_of Binary32 3 \<noteq> 1 \<and> similarity_of Binary32 0 = 1"
proof -
  have a: "similarity_of Binary32 1 = 1 / 2" by code_simp
  have b: "similarity_of Binary32 3 = 1 / 4" by code_simp
  show ?thesis
    using similarity_rounded[of 1 3 Binary32 3] similarity_rounded[of 1 3 Binary32 0] a b
    by (simp add: power_int_minus field_simps)
qed

text \<open>
  Claim C6 as it is written fails: the distances \<open>0\<close> and \<open>2 powi (- 60)\<close>, both
  32-bit floats, have the same score \<open>1\<close> in either format, so the score is not
  strictly decreasing and is one at a distance that is not zero.
\<close>

theorem similarity_not_strict:
  "(0::real) < 1 / 2 ^ 60 \<and>
   similarity_of Binary32 0 = 1 \<and> similarity_of Binary32 (1 / 2 ^ 60) = 1 \<and>
   similarity_of Binary64 0 = 1 \<and> similarity_of Binary64 (1 / 2 ^ 60) = 1"
proof -
  have a: "(1::real) / 2 ^ 60 \<le> 2 powi (- int (precision Binary32))"
    by (simp add: power_int_minus field_simps)
  have b: "(1::real) / 2 ^ 60 \<le> 2 powi (- int (precision Binary64))"
    by (simp add: power_int_minus field_simps)
  show ?thesis
    using similarity_small[of 0 Binary32] similarity_small[of 0 Binary64]
          similarity_small[OF _ a] similarity_small[OF _ b]
    by simp
qed

subsection \<open>Building\<close>

text \<open>
  Claim C10. With an empty list of chunks \<^verbatim>\<open>build_vector_store\<close> returns \<open>None\<close> and
  the world is the one before the call: no directory made, no file read or written,
  no call of the embedding service.
\<close>

theorem build_empty_chunks:
  "build_vector_store ev w [] source_file = (w, Inr None)"
  by (simp add: build_vector_store_def)







subsection \<open>Hybrid search\<close>






subsection \<open>The threshold of retrieve\<close>





subsection \<open>Building twice from the same file\<close>

lemma get_file_hash_source:
  "source_files w' = source_files w \<Longrightarrow> get_file_hash ev w' p = get_file_hash ev w p"
  by (simp add: get_file_hash_def)




lemma load_existing_store_file:
  "store_file w' = store_file w \<Longrightarrow> load_existing w' = load_existing w"
  by (simp add: load_existing_def)


lemma add_and_save_SomeD:
  assumes "add_and_save ev w ex chunks sf new = (w', Inr (Some ix'))"
  shows "new \<noteq> [] \<and> (\<forall>r \<in> set new. length r = d ix') \<and>
         ix' = (case store_index ex of None \<Rightarrow> IndexFlatL2 (length (hd new)) | Some i \<Rightarrow> i)
                 \<lparr>xb := xb (case store_index ex of None \<Rightarrow> IndexFlatL2 (length (hd new)) | Some i \<Rightarrow> i) @ new\<rparr> \<and>
         w' = w\<lparr>store_file := Some (Stored (updated_store ev w ex chunks sf ix'))\<rparr>"
proof -
  let ?base = "case store_index ex of None \<Rightarrow> IndexFlatL2 (length (hd new)) | Some i \<Rightarrow> i"
  have ne: "new \<noteq> []"
    using assms by (auto simp: add_and_save_def)
  have np: "np_array new = Inr new"
  proof (cases "np_array new")
    case (Inl e)
    with assms ne show ?thesis by (simp add: add_and_save_def)
  next
    case (Inr arr)
    then show ?thesis by (simp add: np_array_def split: if_splits)
  qed
  show ?thesis
  proof (cases "index_add ?base new")
    case (Inl e)
    with assms ne np show ?thesis by (simp add: add_and_save_def)
  next
    case (Inr ixa)
    have eq: "add_and_save ev w ex chunks sf new =
           (w\<lparr>store_file := Some (Stored (updated_store ev w ex chunks sf ixa))\<rparr>, Inr (Some ixa))"
      using ne np Inr by (simp add: add_and_save_def)
    from assms[unfolded eq] have c:
      "w\<lparr>store_file := Some (Stored (updated_store ev w ex chunks sf ixa))\<rparr> = w' \<and> ixa = ix'"
      by (metis Pair_inject sum.inject(2) option.inject)
    have r: "ix' = ixa" using c by blast
    have w: "w' = w\<lparr>store_file := Some (Stored (updated_store ev w ex chunks sf ixa))\<rparr>"
      using c by blast
    from Inr have fit: "\<forall>r \<in> set new. length r = d ?base" and ia: "ixa = ?base\<lparr>xb := xb ?base @ new\<rparr>"
      by (auto simp: index_add_def split: if_splits)
    from ia have "d ixa = d ?base" by simp
    with fit r w ia ne show ?thesis by simp
  qed
qed




lemmas build_defs = build_vector_store_def cached_embeddings_def get_embedding_path_def
  get_file_hash_def generate_embeddings_def get_embedding_def add_and_save_def np_array_def
  index_add_def IndexFlatL2_def load_existing_def empty_store_def truthy_def updated_store_def
  assign_indices_def pickle_load_store_def pickle_load_cache_def EMBEDDING_CACHE_DIR_def
  basename_def splitext_root_def enumerate_eq_zip

lemma run1_eq:
  "run1 =
     (\<lparr>store_file = Some (Stored
          \<lparr>store_index = Some \<lparr>d = 2, xb = [[2, 1], [4, 1]]\<rparr>,
           store_chunks = [(mk_chunk ''ab'')\<lparr>index := Some 0\<rparr>, (mk_chunk ''abcd'')\<lparr>index := Some 1\<rparr>],
           file_map = [''notes.pdf'' \<mapsto> \<lparr>hash = ''md5-bytes'', chunk_indices = [0, 1]\<rparr>]\<rparr>),
       cache_files = [''data/vector_store/embeddings/notes_md5-bytes.pkl'' \<mapsto>
          Cached \<lparr>embeddings = [[2, 1], [4, 1]],
                  cached_chunks = [mk_chunk ''ab'', mk_chunk ''abcd'']\<rparr>],
       source_files = [''notes.pdf'' \<mapsto> ''bytes''],
       dirs_made = True,
       provider_log = [''ab'', ''abcd'']\<rparr>,
      Inr (Some \<lparr>d = 2, xb = [[2, 1], [4, 1]]\<rparr>))"
  by (simp add: run1_def build_defs example_env_def empty_world_def mk_chunk_def Let_def)



subsection \<open>Positions of chunks and vectors\<close>

text \<open>After any run of calls that all return an index, from a world without store
  file, every stored chunk has its position as \<open>index\<close>.\<close>

lemma build_SomeD:
  assumes b: "build_vector_store ev w chunks sf = (w1, Inr (Some ix1))"
  shows "\<exists>w'. store_file w1 = Some (Stored (updated_store ev w' (load_existing w) chunks sf ix1))"
proof -
  let ?w0 = "w\<lparr>dirs_made := True\<rparr>"
  have ne: "chunks \<noteq> []" using b by (auto simp: build_vector_store_def)
  have ex: "load_existing ?w0 = load_existing w" by (simp add: load_existing_def)
  show ?thesis
  proof (cases "cached_embeddings ev ?w0 sf = []")
    case False
    from b ne False have "add_and_save ev ?w0 (load_existing w) chunks sf
        (cached_embeddings ev ?w0 sf) = (w1, Inr (Some ix1))"
      by (simp add: build_vector_store_def Let_def ex)
    from add_and_save_SomeD[OF this] show ?thesis by auto
  next
    case True
    obtain w2 r where g: "generate_embeddings ev ?w0 chunks sf = (w2, r)"
      by (cases "generate_embeddings ev ?w0 chunks sf")
    from b ne True g obtain new where
      "add_and_save ev w2 (load_existing w) chunks sf new = (w1, Inr (Some ix1))"
      by (cases r) (simp_all add: build_vector_store_def Let_def ex)
    from add_and_save_SomeD[OF this] show ?thesis by auto
  qed
qed

lemma length_assign_indices: "length (assign_indices s chunks) = length chunks"
  by (simp add: assign_indices_def)

lemma assign_indices_nth:
  "i < length chunks \<Longrightarrow> index (assign_indices s chunks ! i) = Some (s + i)"
  by (simp add: assign_indices_def nth_enumerate_eq)

lemma build_keeps_index_positions:
  assumes b: "build_vector_store ev w chunks sf = (w1, Inr (Some ix1))"
    and inv: "\<forall>i < length (store_chunks (load_existing w)).
                index (store_chunks (load_existing w) ! i) = Some i"
  shows "\<forall>i < length (store_chunks (load_existing w1)).
            index (store_chunks (load_existing w1) ! i) = Some i"
proof -
  let ?old = "store_chunks (load_existing w)"
  from build_SomeD[OF b] obtain w' where
    st: "store_file w1 = Some (Stored (updated_store ev w' (load_existing w) chunks sf ix1))"
    by blast
  have c: "store_chunks (load_existing w1) = ?old @ assign_indices (length ?old) chunks"
    by (simp add: load_existing_def st pickle_load_store_def updated_store_def Let_def)
  show ?thesis
  proof (intro allI impI)
    fix i assume i: "i < length (store_chunks (load_existing w1))"
    show "index (store_chunks (load_existing w1) ! i) = Some i"
    proof (cases "i < length ?old")
      case True
      with inv show ?thesis by (simp add: c nth_append)
    next
      case False
      with i have "i - length ?old < length chunks"
        by (simp add: c length_assign_indices)
      from assign_indices_nth[OF this, of "length ?old"] False show ?thesis
        by (simp add: c nth_append)
    qed
  qed
qed

lemma build_all_index_positions:
  assumes "build_all ev w calls = Some w'"
    and "\<forall>i < length (store_chunks (load_existing w)).
            index (store_chunks (load_existing w) ! i) = Some i"
  shows "\<forall>i < length (store_chunks (load_existing w')).
            index (store_chunks (load_existing w') ! i) = Some i"
  using assms
proof (induction calls arbitrary: w)
  case Nil
  then show ?case by simp
next
  case (Cons c calls)
  obtain chunks sf where c: "c = (chunks, sf)" by (cases c)
  obtain w1 r where b: "build_vector_store ev w chunks sf = (w1, r)"
    by (cases "build_vector_store ev w chunks sf")
  from Cons.prems(1) c b obtain ix where r: "r = Inr (Some ix)" and rest: "build_all ev w1 calls = Some w'"
    by (auto split: sum.splits option.splits)
  from build_keeps_index_positions[OF b[unfolded r] Cons.prems(2)]
  have "\<forall>i < length (store_chunks (load_existing w1)).
            index (store_chunks (load_existing w1) ! i) = Some i" .
  from Cons.IH[OF rest this] show ?case .
qed

lemma build_all_from_empty_store:
  assumes "store_file w = None" and "build_all ev w calls = Some w'"
  shows "\<forall>i < length (store_chunks (load_existing w')).
            index (store_chunks (load_existing w') ! i) = Some i"
  using build_all_index_positions[OF assms(2)] assms(1)
  by (simp add: load_existing_def empty_store_def)

lemma run2_eq:
  "run2 =
     (\<lparr>store_file = Some (Stored
          \<lparr>store_index = Some \<lparr>d = 2, xb = [[2, 1], [4, 1], [2, 1], [4, 1]]\<rparr>,
           store_chunks = [(mk_chunk ''ab'')\<lparr>index := Some 0\<rparr>, (mk_chunk ''abcd'')\<lparr>index := Some 1\<rparr>,
                           (mk_chunk ''abc'')\<lparr>index := Some 2\<rparr>],
           file_map = [''notes.pdf'' \<mapsto> \<lparr>hash = ''md5-bytes'', chunk_indices = [2]\<rparr>]\<rparr>),
       cache_files = [''data/vector_store/embeddings/notes_md5-bytes.pkl'' \<mapsto>
          Cached \<lparr>embeddings = [[2, 1], [4, 1]],
                  cached_chunks = [mk_chunk ''ab'', mk_chunk ''abcd'']\<rparr>],
       source_files = [''notes.pdf'' \<mapsto> ''bytes''],
       dirs_made = True,
       provider_log = [''ab'', ''abcd'']\<rparr>,
      Inr (Some \<lparr>d = 2, xb = [[2, 1], [4, 1], [2, 1], [4, 1]]\<rparr>))"
  by (simp add: run2_def run1_eq build_defs example_env_def mk_chunk_def Let_def numeral_2_eq_2)

lemma run3_eq:
  "run3 =
     (\<lparr>store_file = Some (Stored
          \<lparr>store_index = Some \<lparr>d = 2, xb = [[2, 1], [4, 1], [2, 1], [4, 1], [5, 1]]\<rparr>,
           store_chunks = [(mk_chunk ''ab'')\<lparr>index := Some 0\<rparr>, (mk_chunk ''abcd'')\<lparr>index := Some 1\<rparr>,
                           (mk_chunk ''abc'')\<lparr>index := Some 2\<rparr>, (mk_chunk ''hello'')\<lparr>index := Some 3\<rparr>],
           file_map = [''notes.pdf'' \<mapsto> \<lparr>hash = ''md5-bytes'', chunk_indices = [2]\<rparr>]\<rparr>),
       cache_files = [''data/vector_store/embeddings/notes_md5-bytes.pkl'' \<mapsto>
          Cached \<lparr>embeddings = [[2, 1], [4, 1]],
                  cached_chunks = [mk_chunk ''ab'', mk_chunk ''abcd'']\<rparr>],
       source_files = [''notes.pdf'' \<mapsto> ''bytes''],
       dirs_made = True,
       provider_log = [''ab'', ''abcd'', ''hello'']\<rparr>,
      Inr (Some \<lparr>d = 2, xb = [[2, 1], [4, 1], [2, 1], [4, 1], [5, 1]]\<rparr>))"
  by (simp add: run3_def run2_eq build_defs example_env_def mk_chunk_def Let_def numeral_2_eq_2 numeral_3_eq_3)

text \<open>
  Claim C1 fails on the code in its second half. In the three calls of \<open>run1\<close>,
  \<open>run2\<close> and \<open>run3\<close> every call returns an index. The second call finds the cache
  file of the first and adds its two vectors for one chunk, so the store holds three
  chunks and four vectors; the third call appends the chunk \<open>hello\<close> at position 3 and
  its embedding \<open>(5, 1)\<close> at ordinal 4. The vector at ordinal 3 is \<open>(4, 1)\<close>, the
  embedding of the chunk at position 1, and \<^verbatim>\<open>load_vector_store\<close> refuses the store
  that the calls have written.
\<close>

theorem cache_hit_breaks_correspondence:
  "snd run1 = Inr (Some \<lparr>d = 2, xb = [[2, 1], [4, 1]]\<rparr>) \<and>
   snd run2 = Inr (Some \<lparr>d = 2, xb = [[2, 1], [4, 1], [2, 1], [4, 1]]\<rparr>) \<and>
   snd run3 = Inr (Some \<lparr>d = 2, xb = [[2, 1], [4, 1], [2, 1], [4, 1], [5, 1]]\<rparr>) \<and>
   map text (store_chunks (load_existing (fst run3))) = [''ab'', ''abcd'', ''abc'', ''hello''] \<and>
   map index (store_chunks (load_existing (fst run3))) = [Some 0, Some 1, Some 2, Some 3] \<and>
   provider_log (fst run3) = [''ab'', ''abcd'', ''hello''] \<and>
   embed_content example_env [''ab'', ''abcd''] ''hello'' = Some [5, 1] \<and>
   xb (the (store_index (load_existing (fst run3)))) ! 3 = [4, 1] \<and>
   xb (the (store_index (load_existing (fst run3)))) ! 4 = [5, 1] \<and>
   load_vector_store (fst run2) = (None, None) \<and>
   load_vector_store (fst run3) = (None, None)"
  by (simp add: run1_eq run2_eq run3_eq load_existing_def load_vector_store_def
        pickle_load_store_def ntotal_def mk_chunk_def example_env_def)

end
